theory Spec2Isabelle
  imports Complex_Main "HOL-Library.Word"
begin

unbundle bit_operations_syntax

section \<open>Bread proofing box: a model of \<^verbatim>\<open>proofing_box.ino\<close>\<close>

text \<open>
  The sketch targets an AVR board (the encoder sits on the external-interrupt pins 2 and 3):
  \<^verbatim>\<open>int\<close> is 16 bits wide, \<^verbatim>\<open>long\<close> and \<^verbatim>\<open>unsigned long\<close> are 32 bits wide and
  both \<^verbatim>\<open>float\<close> and \<^verbatim>\<open>double\<close> are IEEE 754 binary32.
\<close>

subsection \<open>Binary32 arithmetic\<close>

text \<open>
  A \<^verbatim>\<open>float\<close> is not-a-number, an infinity, or a finite value kept as the rational
  number it denotes. The sign of zero is not kept: no operation of the sketch observes it
  (comparison, conversion to \<^verbatim>\<open>int\<close> and \<^verbatim>\<open>isnan\<close> treat both zeros alike).
  Every arithmetic result is rounded to the nearest binary32 value, ties to even.
\<close>

datatype float32 = NaN | PlusInf | MinusInf | Finite rat

text \<open>
  \<open>float_exp a\<close> is the binary exponent of the magnitude \<open>a\<close>, at least the
  smallest normal exponent \<open>-126\<close>: the search climbs from there while the next power
  of two still fits below \<open>a\<close>.
\<close>

fun exp_search :: "nat \<Rightarrow> int \<Rightarrow> rat \<Rightarrow> int" where
  "exp_search 0 e a = e"
| "exp_search (Suc n) e a = (if 2 powi (e + 1) \<le> a then exp_search n (e + 1) a else e)"

definition float_exp :: "rat \<Rightarrow> int" where
  "float_exp a = exp_search 254 (- 126) a"

definition round_half_even :: "rat \<Rightarrow> int" where
  "round_half_even y =
     (let f = \<lfloor>y\<rfloor>; d = y - of_int f
      in if d < 1 / 2 then f
         else if 1 / 2 < d then f + 1
         else if even f then f else f + 1)"

text \<open>
  Rounding: the spacing of binary32 values of exponent \<open>e\<close> is \<open>2 powi (e - 23)\<close>
  (24 significant bits); a result of magnitude \<open>2 powi 128\<close> or more overflows to an
  infinity.
\<close>

definition round_at :: "int \<Rightarrow> rat \<Rightarrow> float32" where
  "round_at e x =
     (let q = 2 powi (e - 23);
          r = of_int (round_half_even (x / q)) * q
      in if 2 powi 128 \<le> r then PlusInf
         else if r \<le> - (2 powi 128) then MinusInf
         else Finite r)"

definition round32 :: "rat \<Rightarrow> float32" where
  "round32 x = round_at (float_exp \<bar>x\<bar>) x"

definition isnan :: "float32 \<Rightarrow> bool" where
  "isnan f = (f = NaN)"

fun fneg :: "float32 \<Rightarrow> float32" where
  "fneg NaN = NaN"
| "fneg PlusInf = MinusInf"
| "fneg MinusInf = PlusInf"
| "fneg (Finite a) = Finite (- a)"

fun fadd :: "float32 \<Rightarrow> float32 \<Rightarrow> float32" where
  "fadd NaN _ = NaN"
| "fadd _ NaN = NaN"
| "fadd PlusInf MinusInf = NaN"
| "fadd MinusInf PlusInf = NaN"
| "fadd PlusInf _ = PlusInf"
| "fadd MinusInf _ = MinusInf"
| "fadd _ PlusInf = PlusInf"
| "fadd _ MinusInf = MinusInf"
| "fadd (Finite a) (Finite b) = round32 (a + b)"

definition fsub :: "float32 \<Rightarrow> float32 \<Rightarrow> float32" where
  "fsub x y = fadd x (fneg y)"

text \<open>The sign of a value, for products and quotients with an infinite operand.\<close>

fun fsgn :: "float32 \<Rightarrow> int" where
  "fsgn NaN = 0"
| "fsgn PlusInf = 1"
| "fsgn MinusInf = - 1"
| "fsgn (Finite a) = (if a < 0 then - 1 else if a = 0 then 0 else 1)"

definition inf_of_sign :: "int \<Rightarrow> float32" where
  "inf_of_sign k = (if k = 0 then NaN else if 0 < k then PlusInf else MinusInf)"

fun fmul :: "float32 \<Rightarrow> float32 \<Rightarrow> float32" where
  "fmul NaN _ = NaN"
| "fmul _ NaN = NaN"
| "fmul (Finite a) (Finite b) = round32 (a * b)"
| "fmul x y = inf_of_sign (fsgn x * fsgn y)"

fun fdiv :: "float32 \<Rightarrow> float32 \<Rightarrow> float32" where
  "fdiv NaN _ = NaN"
| "fdiv _ NaN = NaN"
| "fdiv (Finite a) (Finite b) = (if b = 0 then inf_of_sign (fsgn (Finite a)) else round32 (a / b))"
| "fdiv (Finite a) _ = Finite 0"
| "fdiv x (Finite b) = (if b < 0 then fneg x else x)"
| "fdiv _ _ = NaN"

text \<open>\<^verbatim>\<open>x <= y\<close>: false as soon as an operand is not-a-number.\<close>

fun fle :: "float32 \<Rightarrow> float32 \<Rightarrow> bool" where
  "fle NaN _ = False"
| "fle _ NaN = False"
| "fle MinusInf _ = True"
| "fle _ PlusInf = True"
| "fle PlusInf _ = False"
| "fle _ MinusInf = False"
| "fle (Finite a) (Finite b) = (a \<le> b)"

text \<open>Conversion of a \<^verbatim>\<open>long\<close> operand to \<^verbatim>\<open>float\<close> (the usual arithmetic conversions).\<close>

definition float_of_long :: "32 word \<Rightarrow> float32" where
  "float_of_long v = round32 (of_int (sint v))"

text \<open>
  The cast \<^verbatim>\<open>(int) x\<close> truncates toward zero. The language leaves the cast undefined
  when the truncated value does not fit an \<^verbatim>\<open>int\<close> or when \<open>x\<close> is not finite; the
  model keeps the low 16 bits in the first case and yields 0 in the second.
\<close>

definition float_to_int :: "float32 \<Rightarrow> 16 word" where
  "float_to_int x =
     (case x of
        Finite r \<Rightarrow> word_of_int (if 0 \<le> r then \<lfloor>r\<rfloor> else \<lceil>r\<rceil>)
      | _ \<Rightarrow> 0)"

subsection \<open>\<^verbatim>\<open>sprintf\<close> with a \<^verbatim>\<open>%Nd\<close> conversion\<close>

definition digit_char :: "nat \<Rightarrow> char" where
  "digit_char d = ''0123456789'' ! d"

function dec_digits :: "nat \<Rightarrow> string" where
  "dec_digits n = (if n < 10 then [digit_char n] else dec_digits (n div 10) @ [digit_char (n mod 10)])"
  by pat_completeness auto
termination
  by (relation "measure (\<lambda>n. n)") auto

declare dec_digits.simps [simp del]

definition show_int :: "int \<Rightarrow> string" where
  "show_int i = (if i < 0 then CHR ''-'' # dec_digits (nat (- i)) else dec_digits (nat i))"

text \<open>\<^verbatim>\<open>%Nd\<close>: right-justified in a field of at least \<open>N\<close> characters, padded with spaces.\<close>

definition fmt_d :: "nat \<Rightarrow> 16 word \<Rightarrow> string" where
  "fmt_d width i = (let t = show_int (sint i) in replicate (width - length t) CHR '' '' @ t)"

subsection \<open>Constants and globals\<close>

definition debug :: bool where "debug = False"
definition pin_enco_1 :: nat where "pin_enco_1 = 2"
definition pin_enco_2 :: nat where "pin_enco_2 = 3"
definition pin_enco_sw :: nat where "pin_enco_sw = 7"
definition baud_rate :: nat where "baud_rate = 9600"
definition disp_brightness :: "8 word" where "disp_brightness = 255"
definition refresh_freq :: "32 word" where "refresh_freq = 100"
definition enco_sensitivity :: float32 where "enco_sensitivity = Finite (1 / 4)"
definition pin_relay :: nat where "pin_relay = 6"
definition cushion_temp :: float32 where "cushion_temp = Finite 2"

text \<open>
  What the sketch does to the outside world, in program order: bytes and strings sent to
  the display, hardware configuration calls, pin writes and blocking delays (milliseconds).
\<close>

datatype pin_mode = INPUT | OUTPUT

datatype event =
    DispBegin nat
  | DispWrite "8 word"
  | DispPrint string
  | DhtBegin
  | PinMode nat pin_mode
  | DigitalWrite nat bool
  | AttachInterrupt nat
  | Delay nat

text \<open>
  The globals of the sketch, the level driven on the relay pin (which \<^verbatim>\<open>relayState\<close>
  reads back) and the trace of events so far.
\<close>

record state =
  buff :: string
  enco_prev :: "16 word"
  enco_value :: "32 word"
  target_temp :: float32
  setup_mode :: bool
  time_now :: "32 word"
  current_temp :: float32
  relay_level :: bool
  out :: "event list"

definition init_state :: state where
  "init_state =
     \<lparr> buff = [], enco_prev = 0, enco_value = 100, target_temp = Finite 0,
       setup_mode = False, time_now = 0, current_temp = Finite 0,
       relay_level = False, out = [] \<rparr>"

definition emit :: "event list \<Rightarrow> state \<Rightarrow> state" where
  "emit es s = s\<lparr>out := out s @ es\<rparr>"

subsection \<open>Display\<close>

definition clearDisplay :: "state \<Rightarrow> state" where
  "clearDisplay s = emit [DispWrite 0x76] s"

definition setBrightness :: "8 word \<Rightarrow> state \<Rightarrow> state" where
  "setBrightness v s = emit [DispWrite 0x7A, DispWrite v] s"

definition setDecimals :: "8 word \<Rightarrow> state \<Rightarrow> state" where
  "setDecimals decimals s = emit [DispWrite 0x77, DispWrite decimals] s"

definition writeCurrentTemperature :: "state \<Rightarrow> state" where
  "writeCurrentTemperature s =
     (let s1 = setDecimals 2 s;
          s2 = s1\<lparr>buff := fmt_d 4 (float_to_int (fmul (current_temp s1) (Finite 100)))\<rparr>
      in emit [DispPrint (buff s2)] s2)"

definition writeTargetTemperature :: "state \<Rightarrow> state" where
  "writeTargetTemperature s =
     (let s1 = setDecimals 16 s;
          s2 = s1\<lparr>buff := ''T '' @ fmt_d 2 (float_to_int (target_temp s1))\<rparr>
      in emit [DispPrint (buff s2)] s2)"

definition updateDisplay :: "state \<Rightarrow> state" where
  "updateDisplay s = (if setup_mode s then writeTargetTemperature s else writeCurrentTemperature s)"

subsection \<open>Relay\<close>

definition switchRelay :: "bool \<Rightarrow> state \<Rightarrow> state" where
  "switchRelay on s =
     (if on then emit [DigitalWrite pin_relay True] (s\<lparr>relay_level := True\<rparr>)
      else emit [DigitalWrite pin_relay False] (s\<lparr>relay_level := False\<rparr>))"

definition relayState :: "state \<Rightarrow> bool" where
  "relayState s = (relay_level s = True)"

subsection \<open>Encoder interrupt handler\<close>

text \<open>
  \<open>p1\<close> and \<open>p2\<close> are the levels \<^verbatim>\<open>digitalRead\<close> returns for the two encoder pins
  (\<^verbatim>\<open>HIGH\<close> is 1). The increment and decrement of the \<^verbatim>\<open>long\<close> counter wrap modulo
  \<open>2 ^ 32\<close>.
\<close>

definition updateEncoder :: "bool \<Rightarrow> bool \<Rightarrow> state \<Rightarrow> state" where
  "updateEncoder p1 p2 s =
     (if \<not> setup_mode s then s
      else
        let msb = (of_bool p1 :: 16 word);
            lsb = (of_bool p2 :: 16 word);
            enco = push_bit 1 msb OR lsb;
            sum = push_bit 2 (enco_prev s) OR enco;
            v1 = (if sum = 0b1101 \<or> sum = 0b0100 \<or> sum = 0b0010 \<or> sum = 0b1011
                  then enco_value s + 1 else enco_value s);
            v2 = (if sum = 0b1110 \<or> sum = 0b0111 \<or> sum = 0b0001 \<or> sum = 0b1000
                  then v1 - 1 else v1)
        in s\<lparr>enco_value := v2, enco_prev := enco,
              target_temp := fmul (float_of_long v2) enco_sensitivity\<rparr>)"

subsection \<open>Initialisation and main loop\<close>

text \<open>\<^verbatim>\<open>setup()\<close>; the serial diagnostics are compiled out (\<open>debug\<close> is false).\<close>

definition setup_fn :: "state \<Rightarrow> state" where
  "setup_fn s =
     (let s1 = emit [DispBegin baud_rate] s;
          s2 = clearDisplay s1;
          s3 = setBrightness disp_brightness s2;
          s4 = emit [DhtBegin,
                     PinMode pin_enco_1 INPUT, PinMode pin_enco_2 INPUT, PinMode pin_enco_sw INPUT,
                     DigitalWrite pin_enco_1 True, DigitalWrite pin_enco_2 True,
                     DigitalWrite pin_enco_sw True,
                     AttachInterrupt 0, AttachInterrupt 1,
                     PinMode pin_relay OUTPUT] s3;
          s5 = switchRelay False s4;
          s6 = s5\<lparr>target_temp := fmul (float_of_long (enco_value s5)) enco_sensitivity\<rparr>;
          s7 = writeTargetTemperature s6
      in emit [Delay 3000] s7)"

text \<open>
  One iteration of \<^verbatim>\<open>loop()\<close>. Its inputs are what the hardware returns during the
  iteration: the level of the button pin, the sensor reading (used in Run mode only) and
  the two values of \<^verbatim>\<open>millis()\<close>. \<open>button_step\<close> is the first statement of the body
  (the button check, lines 75 to 79), \<open>refresh_step\<close> the last one (the periodic
  refresh, lines 103 to 106); the \<^verbatim>\<open>return\<close> after the error token leaves the body
  without reaching the refresh. The encoder interrupt is a separate step of the system,
  \<open>updateEncoder\<close>, and is not interleaved here.
\<close>

record loop_in =
  sw_level :: bool
  reading :: float32
  millis1 :: "32 word"
  millis2 :: "32 word"

definition button_step :: "bool \<Rightarrow> state \<Rightarrow> state" where
  "button_step sw s =
     (if \<not> sw
      then emit [Delay 1000] (updateDisplay (s\<lparr>setup_mode := \<not> setup_mode s\<rparr>))
      else s)"

definition refresh_step :: "32 word \<Rightarrow> 32 word \<Rightarrow> state \<Rightarrow> state" where
  "refresh_step m1 m2 s =
     (if m1 - time_now s > refresh_freq then updateDisplay (s\<lparr>time_now := m2\<rparr>) else s)"

definition loop :: "loop_in \<Rightarrow> state \<Rightarrow> state" where
  "loop i s =
     (let s1 = button_step (sw_level i) s
      in if \<not> setup_mode s1
         then
           let s2 = s1\<lparr>current_temp := reading i\<rparr>
           in if isnan (current_temp s2) then emit [DispPrint ''Err ''] s2
              else
                let cushion = fdiv cushion_temp (Finite 2);
                    cushioned_target =
                      (if relayState s2 then fadd (target_temp s2) cushion
                       else fsub (target_temp s2) cushion);
                    s3 = switchRelay (fle (current_temp s2) cushioned_target) s2
                in refresh_step (millis1 i) (millis2 i) s3
         else refresh_step (millis1 i) (millis2 i) s1)"

text \<open>
  The Arduino runtime calls \<^verbatim>\<open>setup()\<close> once and then \<^verbatim>\<open>loop()\<close> again and again;
  a run of the sketch over a list of per-iteration inputs is the fold of \<open>loop\<close>.
\<close>

fun run_loops :: "loop_in list \<Rightarrow> state \<Rightarrow> state" where
  "run_loops [] s = s"
| "run_loops (i # rest) s = run_loops rest (loop i s)"

section \<open>Properties\<close>

subsection \<open>Rounding\<close>

text \<open>The exponent search returns the exponent of the binade that holds its argument.\<close>

lemma exp_search_eq:
  "e0 \<le> e \<Longrightarrow> e - e0 \<le> int n \<Longrightarrow> (e0 < e \<longrightarrow> 2 powi e \<le> a) \<Longrightarrow> a < 2 powi (e + 1)
   \<Longrightarrow> exp_search n e0 a = e"
proof (induction n arbitrary: e0)
  case 0
  then show ?case by simp
next
  case (Suc n)
  show ?case
  proof (cases "e0 = e")
    case True
    with Suc.prems show ?thesis by simp
  next
    case False
    with Suc.prems have lt: "e0 < e" by simp
    then have "(2::rat) powi (e0 + 1) \<le> 2 powi e"
      by (intro power_int_increasing) auto
    with Suc.prems lt have le: "2 powi (e0 + 1) \<le> a" by simp
    have "exp_search n (e0 + 1) a = e"
      using Suc.prems lt by (intro Suc.IH) auto
    with le show ?thesis by simp
  qed
qed

lemma exp_search_low: "exp_search n e a = e \<or> 2 powi (exp_search n e a) \<le> a"
proof (induction n arbitrary: e)
  case 0
  show ?case by simp
next
  case (Suc n)
  show ?case
  proof (cases "2 powi (e + 1) \<le> a")
    case True
    with Suc.IH [of "e + 1"] show ?thesis by auto
  next
    case False
    then show ?thesis by simp
  qed
qed

lemma float_exp_eq:
  "- 126 \<le> e \<Longrightarrow> e \<le> 128 \<Longrightarrow> 2 powi e \<le> a \<Longrightarrow> a < 2 powi (e + 1) \<Longrightarrow> float_exp a = e"
  unfolding float_exp_def by (rule exp_search_eq) auto

lemma float_exp_low: "float_exp a = - 126 \<or> 2 powi (float_exp a) \<le> a"
  unfolding float_exp_def by (rule exp_search_low)

lemma round_half_even_of_int [simp]: "round_half_even (of_int n) = n"
  by (simp add: round_half_even_def)

text \<open>A value with at most 24 significant bits and an exponent in range is its own rounding.\<close>

lemma round32_exact:
  assumes m: "\<bar>m\<bar> < 2 ^ 24" and k: "- 149 \<le> k" "k \<le> 104"
  shows "round32 (of_int m * 2 powi k) = Finite (of_int m * 2 powi k)"
proof -
  define x :: rat where "x = of_int m * 2 powi k"
  define E where "E = float_exp \<bar>x\<bar>"
  have absx: "\<bar>x\<bar> = of_int \<bar>m\<bar> * 2 powi k"
    by (simp add: x_def abs_mult)
  have "of_int \<bar>m\<bar> < (2::rat) ^ 24"
    using m by (metis of_int_less_iff of_int_numeral of_int_power)
  then have lt: "\<bar>x\<bar> < 2 powi (24 + k)"
    unfolding absx by (simp add: power_int_add)
  have Ek: "E - 23 \<le> k"
  proof (cases "E = - 126")
    case True
    with k show ?thesis by simp
  next
    case False
    then have "2 powi E \<le> \<bar>x\<bar>"
      using float_exp_low [of "\<bar>x\<bar>"] by (simp add: E_def)
    with lt have "(2::rat) powi E < 2 powi (24 + k)" by simp
    have "E < 24 + k"
    proof (rule ccontr)
      assume "\<not> E < 24 + k"
      then have "(2::rat) powi (24 + k) \<le> 2 powi E"
        by (intro power_int_increasing) auto
      with \<open>(2::rat) powi E < 2 powi (24 + k)\<close> show False by simp
    qed
    then show ?thesis by simp
  qed
  define j where "j = nat (k - (E - 23))"
  have kj: "k = (E - 23) + int j"
    using Ek by (simp add: j_def)
  have pw: "(2::rat) powi k = 2 powi (E - 23) * 2 ^ j"
    by (subst kj) (simp add: power_int_add)
  have xq: "x / 2 powi (E - 23) = of_int (m * 2 ^ j)"
    unfolding x_def pw by simp
  have r: "of_int (round_half_even (x / 2 powi (E - 23))) * 2 powi (E - 23) = x"
    unfolding xq round_half_even_of_int
    unfolding x_def pw by simp
  have "\<bar>x\<bar> < 2 powi 128"
  proof -
    have "(2::rat) powi (24 + k) \<le> 2 powi 128"
      using k by (intro power_int_increasing) auto
    with lt show ?thesis by simp
  qed
  then have "\<not> 2 powi 128 \<le> x" "\<not> x \<le> - (2 powi 128)"
    by (auto simp: abs_less_iff)
  with r show ?thesis
    unfolding round32_def round_at_def Let_def x_def [symmetric] E_def [symmetric] by simp
qed

lemma round32_of_int:
  assumes "\<bar>m\<bar> \<le> 2 ^ 24"
  shows "round32 (of_int m) = Finite (of_int m)"
proof (cases "\<bar>m\<bar> = 2 ^ 24")
  case True
  then consider "m = 2 ^ 24" | "m = - (2 ^ 24)" by (auto simp: abs_if split: if_splits)
  then show ?thesis
  proof cases
    case 1
    show ?thesis using round32_exact [of "2 ^ 23" 1] unfolding 1 by simp
  next
    case 2
    show ?thesis using round32_exact [of "- (2 ^ 23)" 1] unfolding 2 by simp
  qed
next
  case False
  with assms have "\<bar>m\<bar> < 2 ^ 24" by simp
  from round32_exact [OF this, of 0] show ?thesis by simp
qed

lemma round32_quarters:
  assumes "\<bar>m\<bar> \<le> 2 ^ 24"
  shows "round32 (of_int m / 4) = Finite (of_int m / 4)"
proof (cases "\<bar>m\<bar> = 2 ^ 24")
  case True
  then consider "m = 2 ^ 24" | "m = - (2 ^ 24)" by (auto simp: abs_if split: if_splits)
  then show ?thesis
  proof cases
    case 1
    show ?thesis using round32_exact [of "2 ^ 22" 0] unfolding 1 by simp
  next
    case 2
    show ?thesis using round32_exact [of "- (2 ^ 22)" 0] unfolding 2 by simp
  qed
next
  case False
  with assms have "\<bar>m\<bar> < 2 ^ 24" by simp
  from round32_exact [OF this, of "- 2"] show ?thesis
    by (simp add: power_int_minus field_simps)
qed

lemma round32_binade:
  assumes "- 126 \<le> e" "e \<le> 128" "2 powi e \<le> \<bar>x\<bar>" "\<bar>x\<bar> < 2 powi (e + 1)"
  shows "round32 x = round_at e x"
  unfolding round32_def float_exp_eq [OF assms] ..

lemma float_of_long_exact:
  "\<bar>sint v\<bar> \<le> 2 ^ 24 \<Longrightarrow> float_of_long v = Finite (of_int (sint v))"
  unfolding float_of_long_def by (rule round32_of_int)

lemma derive_target_exact:
  assumes "\<bar>sint v\<bar> \<le> 2 ^ 24"
  shows "fmul (float_of_long v) enco_sensitivity = Finite (of_int (sint v) / 4)"
  using assms round32_quarters [of "sint v"]
  by (simp add: float_of_long_exact enco_sensitivity_def del: of_int_sint)

subsection \<open>Decoder\<close>

lemma updateEncoder_setup:
  assumes "setup_mode s"
  shows "updateEncoder p1 p2 s =
     (let enco = push_bit 1 (of_bool p1) OR of_bool p2;
          sum = push_bit 2 (enco_prev s) OR enco;
          v = (if sum \<in> {0b1101, 0b0100, 0b0010, 0b1011} then enco_value s + 1
               else if sum \<in> {0b1110, 0b0111, 0b0001, 0b1000} then enco_value s - 1
               else enco_value s)
      in s\<lparr>enco_value := v, enco_prev := enco,
            target_temp := fmul (float_of_long v) enco_sensitivity\<rparr>)"
  using assms by (auto simp add: updateEncoder_def Let_def)

lemma pin_pair_value:
  "unat (push_bit 1 (of_bool p1) OR of_bool p2 :: 16 word) = 2 * of_bool p1 + of_bool p2"
  by (cases p1; cases p2) simp_all

lemma two_bit_cases:
  assumes "(x :: 16 word) \<le> 3"
  shows "x = 0 \<or> x = 1 \<or> x = 2 \<or> x = 3"
proof -
  have "unat x \<le> 3" using assms by (simp add: word_le_nat_alt)
  then have "unat x = 0 \<or> unat x = 1 \<or> unat x = 2 \<or> unat x = 3" by arith
  moreover have "x = of_nat k" if "unat x = k" for k
    using that by auto
  ultimately have "x = of_nat 0 \<or> x = of_nat 1 \<or> x = of_nat 2 \<or> x = of_nat 3"
    by blast
  then show ?thesis by simp
qed

lemma transition_code_value:
  assumes "(x :: 16 word) \<le> 3"
  shows "unat (push_bit 2 x OR (push_bit 1 (of_bool p1) OR of_bool p2)) = 4 * unat x + 2 * of_bool p1 + of_bool p2"
  using two_bit_cases [OF assms] by (cases p1; cases p2) auto

lemma sint_succ: "sint (v :: 32 word) < 2 ^ 31 - 1 \<Longrightarrow> sint (v + 1) = sint v + 1"
  using sint_ge [of v] by (simp add: sint_word_add signed_take_bit_int_eq_self)

lemma sint_pred: "- (2 ^ 31) < sint (v :: 32 word) \<Longrightarrow> sint (v - 1) = sint v - 1"
  using sint_lt [of v] by (simp add: sint_word_diff signed_take_bit_int_eq_self)

subsection \<open>What each operation leaves unchanged\<close>

lemma emit_simps [simp]:
  "out (emit es s) = out s @ es"
  "buff (emit es s) = buff s"
  "enco_prev (emit es s) = enco_prev s"
  "enco_value (emit es s) = enco_value s"
  "target_temp (emit es s) = target_temp s"
  "setup_mode (emit es s) = setup_mode s"
  "time_now (emit es s) = time_now s"
  "current_temp (emit es s) = current_temp s"
  "relay_level (emit es s) = relay_level s"
  by (simp_all add: emit_def)

lemma writeCurrentTemperature_simps [simp]:
  "out (writeCurrentTemperature s) =
     out s @ [DispWrite 0x77, DispWrite 2,
              DispPrint (fmt_d 4 (float_to_int (fmul (current_temp s) (Finite 100))))]"
  "enco_prev (writeCurrentTemperature s) = enco_prev s"
  "enco_value (writeCurrentTemperature s) = enco_value s"
  "target_temp (writeCurrentTemperature s) = target_temp s"
  "setup_mode (writeCurrentTemperature s) = setup_mode s"
  "time_now (writeCurrentTemperature s) = time_now s"
  "current_temp (writeCurrentTemperature s) = current_temp s"
  "relay_level (writeCurrentTemperature s) = relay_level s"
  by (simp_all add: writeCurrentTemperature_def setDecimals_def Let_def)

lemma writeTargetTemperature_simps [simp]:
  "out (writeTargetTemperature s) =
     out s @ [DispWrite 0x77, DispWrite 16,
              DispPrint (''T '' @ fmt_d 2 (float_to_int (target_temp s)))]"
  "enco_prev (writeTargetTemperature s) = enco_prev s"
  "enco_value (writeTargetTemperature s) = enco_value s"
  "target_temp (writeTargetTemperature s) = target_temp s"
  "setup_mode (writeTargetTemperature s) = setup_mode s"
  "time_now (writeTargetTemperature s) = time_now s"
  "current_temp (writeTargetTemperature s) = current_temp s"
  "relay_level (writeTargetTemperature s) = relay_level s"
  by (simp_all add: writeTargetTemperature_def setDecimals_def Let_def)

lemma updateDisplay_simps [simp]:
  "enco_prev (updateDisplay s) = enco_prev s"
  "enco_value (updateDisplay s) = enco_value s"
  "target_temp (updateDisplay s) = target_temp s"
  "setup_mode (updateDisplay s) = setup_mode s"
  "time_now (updateDisplay s) = time_now s"
  "current_temp (updateDisplay s) = current_temp s"
  "relay_level (updateDisplay s) = relay_level s"
  by (simp_all add: updateDisplay_def)

lemma button_step_simps [simp]:
  "setup_mode (button_step sw s) = (if sw then setup_mode s else \<not> setup_mode s)"
  "enco_prev (button_step sw s) = enco_prev s"
  "enco_value (button_step sw s) = enco_value s"
  "target_temp (button_step sw s) = target_temp s"
  "time_now (button_step sw s) = time_now s"
  "current_temp (button_step sw s) = current_temp s"
  "relay_level (button_step sw s) = relay_level s"
  by (simp_all add: button_step_def)

lemma refresh_step_simps [simp]:
  "setup_mode (refresh_step m1 m2 s) = setup_mode s"
  "enco_prev (refresh_step m1 m2 s) = enco_prev s"
  "enco_value (refresh_step m1 m2 s) = enco_value s"
  "target_temp (refresh_step m1 m2 s) = target_temp s"
  "current_temp (refresh_step m1 m2 s) = current_temp s"
  "relay_level (refresh_step m1 m2 s) = relay_level s"
  by (simp_all add: refresh_step_def)

lemma switchRelay_simps [simp]:
  "relay_level (switchRelay on s) = on"
  "out (switchRelay on s) = out s @ [DigitalWrite pin_relay on]"
  "setup_mode (switchRelay on s) = setup_mode s"
  "enco_prev (switchRelay on s) = enco_prev s"
  "enco_value (switchRelay on s) = enco_value s"
  "target_temp (switchRelay on s) = target_temp s"
  "time_now (switchRelay on s) = time_now s"
  "current_temp (switchRelay on s) = current_temp s"
  by (simp_all add: switchRelay_def)

subsection \<open>The three paths through an iteration\<close>

lemma loop_nan:
  assumes "\<not> setup_mode (button_step (sw_level i) s)" "isnan (reading i)"
  shows "loop i s = emit [DispPrint ''Err ''] ((button_step (sw_level i) s)\<lparr>current_temp := reading i\<rparr>)"
  using assms unfolding loop_def Let_def by simp

lemma loop_valid:
  assumes "\<not> setup_mode (button_step (sw_level i) s)" "\<not> isnan (reading i)"
  shows "loop i s =
     refresh_step (millis1 i) (millis2 i)
       (switchRelay
          (fle (reading i)
             (if relay_level s then fadd (target_temp s) (fdiv cushion_temp (Finite 2))
              else fsub (target_temp s) (fdiv cushion_temp (Finite 2))))
          ((button_step (sw_level i) s)\<lparr>current_temp := reading i\<rparr>))"
  using assms unfolding loop_def Let_def by (simp add: relayState_def)

lemma loop_setup:
  assumes "setup_mode (button_step (sw_level i) s)"
  shows "loop i s = refresh_step (millis1 i) (millis2 i) (button_step (sw_level i) s)"
  using assms unfolding loop_def Let_def by simp

lemma loop_frame:
  "enco_value (loop i s) = enco_value s"
  "target_temp (loop i s) = target_temp s"
  "enco_prev (loop i s) = enco_prev s"
  "setup_mode (loop i s) = (if sw_level i then setup_mode s else \<not> setup_mode s)"
proof -
  consider (a) "setup_mode (button_step (sw_level i) s)"
    | (b) "\<not> setup_mode (button_step (sw_level i) s)" "isnan (reading i)"
    | (c) "\<not> setup_mode (button_step (sw_level i) s)" "\<not> isnan (reading i)"
    by blast
  then have "enco_value (loop i s) = enco_value s \<and> target_temp (loop i s) = target_temp s
     \<and> enco_prev (loop i s) = enco_prev s
     \<and> setup_mode (loop i s) = (if sw_level i then setup_mode s else \<not> setup_mode s)"
  proof cases
    case a
    then show ?thesis by (simp add: loop_setup)
  next
    case b
    then show ?thesis by (simp add: loop_nan)
  next
    case c
    then show ?thesis by (simp add: loop_valid)
  qed
  then show "enco_value (loop i s) = enco_value s"
    "target_temp (loop i s) = target_temp s"
    "enco_prev (loop i s) = enco_prev s"
    "setup_mode (loop i s) = (if sw_level i then setup_mode s else \<not> setup_mode s)"
    by simp_all
qed

subsection \<open>Constants of the sketch, evaluated\<close>

lemma half_cushion: "fdiv cushion_temp (Finite 2) = Finite 1"
  using round32_of_int [of 1] by (simp add: cushion_temp_def)

lemma quarter_threshold:
  assumes "\<bar>n\<bar> \<le> 2 ^ 23"
  shows "fadd (Finite (of_int n / 4)) (Finite 1) = Finite (of_int n / 4 + 1)"
    and "fsub (Finite (of_int n / 4)) (Finite 1) = Finite (of_int n / 4 - 1)"
proof -
  have "\<bar>n + 4\<bar> \<le> 2 ^ 24" "\<bar>n - 4\<bar> \<le> 2 ^ 24"
    using assms by simp_all
  from round32_quarters [OF this(1)] round32_quarters [OF this(2)]
  have "round32 (of_int n / 4 + 1) = Finite (of_int n / 4 + 1)"
       "round32 (of_int n / 4 - 1) = Finite (of_int n / 4 - 1)"
    by (simp_all add: field_simps)
  then show "fadd (Finite (of_int n / 4)) (Finite 1) = Finite (of_int n / 4 + 1)"
    and "fsub (Finite (of_int n / 4)) (Finite 1) = Finite (of_int n / 4 - 1)"
    by (simp_all add: fsub_def)
qed

lemma fmt_T25: "fmt_d 2 25 = ''25''"
  by code_simp

lemma float_to_int_25: "float_to_int (Finite 25) = 25"
  by (simp add: float_to_int_def)

lemma round_23_456: "round32 (23456 / 1000) = Finite (12297699 / 524288)"
proof -
  have "round32 (23456 / 1000) = round_at 4 (23456 / 1000)"
    by (rule round32_binade) simp_all
  also have "\<dots> = Finite (12297699 / 524288)"
    by code_simp
  finally show ?thesis .
qed

lemma round_2345_6: "round32 (12297699 / 524288 * 100) = Finite (9607577 / 4096)"
proof -
  have "round32 (12297699 / 524288 * 100) = round_at 11 (12297699 / 524288 * 100)"
    by (rule round32_binade) simp_all
  also have "\<dots> = Finite (9607577 / 4096)"
    by code_simp
  finally show ?thesis .
qed

lemma float_to_int_2345: "float_to_int (Finite (9607577 / 4096)) = 2345"
  by code_simp

lemma float_to_int_24: "float_to_int (Finite 24) = 24"
  by (simp add: float_to_int_def)

lemma fmt_2345: "fmt_d 4 2345 = ''2345''"
  by code_simp

lemma fmt_24: "fmt_d 2 24 = ''24''"
  by code_simp

subsection \<open>Runs of the main loop\<close>

lemma run_loops_nan:
  assumes "\<not> setup_mode s" "\<forall>i \<in> set is. sw_level i \<and> isnan (reading i)"
  shows "out (run_loops is s) = out s @ replicate (length is) (DispPrint ''Err '')
     \<and> \<not> setup_mode (run_loops is s)"
  using assms
proof (induction "is" arbitrary: s)
  case Nil
  then show ?case by simp
next
  case (Cons i rest)
  have run: "\<not> setup_mode (button_step (sw_level i) s)"
    using Cons.prems by simp
  have nan: "isnan (reading i)"
    using Cons.prems by simp
  have o: "out (loop i s) = out s @ [DispPrint ''Err '']"
    unfolding loop_nan [OF run nan] using Cons.prems by (simp add: button_step_def)
  have m: "\<not> setup_mode (loop i s)"
    using Cons.prems by (simp add: loop_frame)
  from Cons.IH [OF m] Cons.prems
  show ?case by (simp add: o replicate_append_same)
qed

section \<open>The claims\<close>

subsection \<open>Quadrature decoder\<close>

text \<open>
  Claim C2. For an invocation of the decoder in Setup mode, let the transition code be the
  stored pin pair shifted left by two bits, or-ed with the current pin pair (for a stored
  pair of two bits this is the four-bit number with the stored pair in the high bits and
  the current pair in the low bits). The counter is incremented by one on the codes 1101,
  0100, 0010, 1011, decremented by one on the codes 1110, 0111, 0001, 1000 and unchanged on
  every other code; the current pin pair is stored as the previous one. The increment and
  the decrement are those of the 32-bit counter; they are the integer successor and
  predecessor away from the limits of \<^verbatim>\<open>long\<close>.
\<close>

theorem updateEncoder_counter_step:
  assumes "setup_mode s"
  shows "let enco = push_bit 1 (of_bool p1) OR of_bool p2;
             code = push_bit 2 (enco_prev s) OR enco;
             s' = updateEncoder p1 p2 s
         in (code \<in> {0b1101, 0b0100, 0b0010, 0b1011} \<longrightarrow>
               enco_value s' = enco_value s + 1
               \<and> (sint (enco_value s) < 2 ^ 31 - 1 \<longrightarrow> sint (enco_value s') = sint (enco_value s) + 1))
          \<and> (code \<in> {0b1110, 0b0111, 0b0001, 0b1000} \<longrightarrow>
               enco_value s' = enco_value s - 1
               \<and> (- (2 ^ 31) < sint (enco_value s) \<longrightarrow> sint (enco_value s') = sint (enco_value s) - 1))
          \<and> (code \<notin> {0b1101, 0b0100, 0b0010, 0b1011, 0b1110, 0b0111, 0b0001, 0b1000} \<longrightarrow>
               enco_value s' = enco_value s)
          \<and> enco_prev s' = enco
          \<and> unat enco = 2 * of_bool p1 + of_bool p2
          \<and> (enco_prev s \<le> 3 \<longrightarrow> unat code = 4 * unat (enco_prev s) + 2 * of_bool p1 + of_bool p2)"
  unfolding updateEncoder_setup [OF assms]
  using pin_pair_value [of p1 p2] transition_code_value [of "enco_prev s" p1 p2]
  by (simp add: Let_def sint_succ sint_pred)

theorem updateEncoder_counter_step_witness:
  "setup_mode (init_state\<lparr>setup_mode := True, enco_prev := 0b01\<rparr>)
   \<and> enco_value (updateEncoder False False (init_state\<lparr>setup_mode := True, enco_prev := 0b01\<rparr>)) = 101
   \<and> sint (enco_value (updateEncoder False False (init_state\<lparr>setup_mode := True, enco_prev := 0b01\<rparr>))) = 101
   \<and> enco_value (updateEncoder False True (init_state\<lparr>setup_mode := True\<rparr>)) = 99
   \<and> sint (enco_value (updateEncoder False True (init_state\<lparr>setup_mode := True\<rparr>))) = 99
   \<and> enco_value (updateEncoder True True (init_state\<lparr>setup_mode := True, enco_prev := 0b11\<rparr>)) = 100
   \<and> enco_prev (updateEncoder True True (init_state\<lparr>setup_mode := True, enco_prev := 0b11\<rparr>)) = 0b11
   \<and> unat (push_bit 2 (0b11 :: 16 word) OR (push_bit 1 (of_bool True) OR of_bool True)) = 15"
  using updateEncoder_counter_step [of "init_state\<lparr>setup_mode := True, enco_prev := 0b01\<rparr>" False False]
        updateEncoder_counter_step [of "init_state\<lparr>setup_mode := True\<rparr>" False True]
        updateEncoder_counter_step [of "init_state\<lparr>setup_mode := True, enco_prev := 0b11\<rparr>" True True]
  by (simp add: init_state_def Let_def)

text \<open>
  Claim C5. An invocation of the decoder in Run mode leaves the whole state as it was: the
  counter, the stored pin pair and the target temperature (and every other global) are
  unchanged, whatever the levels of the two encoder pins.
\<close>

theorem updateEncoder_run_mode_noop: "\<not> setup_mode s \<Longrightarrow> updateEncoder p1 p2 s = s"
  by (simp add: updateEncoder_def)

theorem updateEncoder_run_mode_noop_witness:
  "\<not> setup_mode init_state \<and> updateEncoder True False init_state = init_state"
  using updateEncoder_run_mode_noop [of init_state True False] by (simp add: init_state_def)

text \<open>
  Claim C3. After an invocation of the decoder in Setup mode the target temperature is
  the product, as the program computes it, of the new counter and the sensitivity 0.25;
  for a counter of magnitude up to \<open>2 ^ 24\<close> that product is the exact number
  \<open>counter / 4\<close>. In Run mode the decoder changes neither the counter nor the target, and
  an iteration of the main loop changes neither in either mode.
\<close>

theorem setpoint_follows_counter:
  "(setup_mode s \<longrightarrow>
      target_temp (updateEncoder p1 p2 s)
        = fmul (float_of_long (enco_value (updateEncoder p1 p2 s))) enco_sensitivity
      \<and> (\<bar>sint (enco_value (updateEncoder p1 p2 s))\<bar> \<le> 2 ^ 24 \<longrightarrow>
           target_temp (updateEncoder p1 p2 s)
             = Finite (of_int (sint (enco_value (updateEncoder p1 p2 s))) / 4)))
   \<and> (\<not> setup_mode s \<longrightarrow>
        enco_value (updateEncoder p1 p2 s) = enco_value s
        \<and> target_temp (updateEncoder p1 p2 s) = target_temp s)
   \<and> enco_value (loop i s) = enco_value s
   \<and> target_temp (loop i s) = target_temp s"
proof -
  have a: "target_temp (updateEncoder p1 p2 s)
        = fmul (float_of_long (enco_value (updateEncoder p1 p2 s))) enco_sensitivity"
    if "setup_mode s"
    unfolding updateEncoder_setup [OF that] by (simp add: Let_def)
  have b: "enco_value (updateEncoder p1 p2 s) = enco_value s
        \<and> target_temp (updateEncoder p1 p2 s) = target_temp s" if "\<not> setup_mode s"
    using that by (simp add: updateEncoder_def)
  show ?thesis
    using a b derive_target_exact [of "enco_value (updateEncoder p1 p2 s)"]
    by (simp add: loop_frame del: of_int_sint)
qed

theorem setpoint_follows_counter_witness:
  "setup_mode (init_state\<lparr>setup_mode := True, enco_prev := 0b01\<rparr>)
   \<and> \<bar>sint (enco_value (updateEncoder False False (init_state\<lparr>setup_mode := True, enco_prev := 0b01\<rparr>)))\<bar> \<le> 2 ^ 24
   \<and> target_temp (updateEncoder False False (init_state\<lparr>setup_mode := True, enco_prev := 0b01\<rparr>))
       = Finite (101 / 4)
   \<and> \<not> setup_mode init_state
   \<and> enco_value (updateEncoder True False init_state) = 100
   \<and> target_temp (updateEncoder True False init_state) = Finite 0"
  using setpoint_follows_counter [of "init_state\<lparr>setup_mode := True, enco_prev := 0b01\<rparr>" False False]
        setpoint_follows_counter [of init_state True False]
        updateEncoder_setup [of "init_state\<lparr>setup_mode := True, enco_prev := 0b01\<rparr>" False False]
  by (simp add: init_state_def Let_def)

text \<open>
  Claim C8. The derived target is exact at the two distinguished counters: counter 0 gives
  target 0.0 and counter 100 gives target 25.0, both where \<^verbatim>\<open>setup()\<close> derives the target
  and where the decoder does.
\<close>

theorem setpoint_exact_points:
  "target_temp (setup_fn (s\<lparr>enco_value := 0\<rparr>)) = Finite 0
   \<and> target_temp (setup_fn (s\<lparr>enco_value := 100\<rparr>)) = Finite 25
   \<and> (setup_mode s \<and> enco_value (updateEncoder p1 p2 s) = 0 \<longrightarrow>
        target_temp (updateEncoder p1 p2 s) = Finite 0)
   \<and> (setup_mode s \<and> enco_value (updateEncoder p1 p2 s) = 100 \<longrightarrow>
        target_temp (updateEncoder p1 p2 s) = Finite 25)"
proof -
  have z: "fmul (float_of_long 0) enco_sensitivity = Finite 0"
    using derive_target_exact [of 0] by simp
  have h: "fmul (float_of_long 100) enco_sensitivity = Finite 25"
    using derive_target_exact [of 100] by simp
  have a: "target_temp (updateEncoder p1 p2 s)
        = fmul (float_of_long (enco_value (updateEncoder p1 p2 s))) enco_sensitivity"
    if "setup_mode s"
    unfolding updateEncoder_setup [OF that] by (simp add: Let_def)
  have st: "target_temp (setup_fn t) = fmul (float_of_long (enco_value t)) enco_sensitivity" for t
    by (simp add: setup_fn_def Let_def clearDisplay_def setBrightness_def)
  show ?thesis
    using a by (auto simp add: st z h)
qed

theorem setpoint_exact_points_witness:
  "setup_mode (init_state\<lparr>setup_mode := True, enco_value := 1\<rparr>)
   \<and> enco_value (updateEncoder False True (init_state\<lparr>setup_mode := True, enco_value := 1\<rparr>)) = 0
   \<and> target_temp (updateEncoder False True (init_state\<lparr>setup_mode := True, enco_value := 1\<rparr>)) = Finite 0
   \<and> setup_mode (init_state\<lparr>setup_mode := True\<rparr>)
   \<and> enco_value (updateEncoder False False (init_state\<lparr>setup_mode := True\<rparr>)) = 100
   \<and> target_temp (updateEncoder False False (init_state\<lparr>setup_mode := True\<rparr>)) = Finite 25"
  using setpoint_exact_points [of "init_state\<lparr>setup_mode := True, enco_value := 1\<rparr>" False True]
        setpoint_exact_points [of "init_state\<lparr>setup_mode := True\<rparr>" False False]
        updateEncoder_setup [of "init_state\<lparr>setup_mode := True, enco_value := 1\<rparr>" False True]
        updateEncoder_setup [of "init_state\<lparr>setup_mode := True\<rparr>" False False]
  by (simp add: init_state_def Let_def)

subsection \<open>Main loop\<close>

text \<open>
  Claim C1. In an iteration that is in Run mode when the sensor is read and whose reading
  is not NaN, the relay is commanded energized exactly when the reading is at most the
  target plus half the cushion if the relay is energized, and at most the target minus half
  the cushion if it is de-energized; sum, difference and comparison are those of binary32.
  For a target of \<open>n\<close> quarter degrees with \<open>\<bar>n\<bar> \<le> 2 ^ 23\<close> the two thresholds are
  the exact numbers \<open>n / 4 + 1\<close> and \<open>n / 4 - 1\<close>. With target 25.0 (cushion 2.0) a
  reading strictly between 24.0 and 26.0 leaves the relay as it is.
\<close>

theorem hysteresis_relay_decision:
  assumes run: "\<not> setup_mode (button_step (sw_level i) s)"
    and valid: "\<not> isnan (reading i)"
  shows "relay_level (loop i s) =
           fle (reading i)
             (if relay_level s then fadd (target_temp s) (fdiv cushion_temp (Finite 2))
              else fsub (target_temp s) (fdiv cushion_temp (Finite 2)))
     \<and> (\<forall>n t. target_temp s = Finite (of_int n / 4) \<and> \<bar>n\<bar> \<le> 2 ^ 23 \<and> reading i = Finite t \<longrightarrow>
           relay_level (loop i s) =
             (if relay_level s then t \<le> of_int n / 4 + 1 else t \<le> of_int n / 4 - 1))
     \<and> (\<forall>t. target_temp s = Finite 25 \<and> reading i = Finite t \<and> 24 < t \<and> t < 26 \<longrightarrow>
           relay_level (loop i s) = relay_level s)"
proof -
  have gen: "relay_level (loop i s) =
           fle (reading i)
             (if relay_level s then fadd (target_temp s) (fdiv cushion_temp (Finite 2))
              else fsub (target_temp s) (fdiv cushion_temp (Finite 2)))"
    unfolding loop_valid [OF run valid] by simp
  have q: "relay_level (loop i s) =
             (if relay_level s then t \<le> of_int n / 4 + 1 else t \<le> of_int n / 4 - 1)"
    if "target_temp s = Finite (of_int n / 4)" "\<bar>n\<bar> \<le> 2 ^ 23" "reading i = Finite t" for n t
    unfolding gen half_cushion that(1) that(3)
      quarter_threshold(1) [OF that(2)] quarter_threshold(2) [OF that(2)]
    by simp
  have c: "relay_level (loop i s) = relay_level s"
    if "target_temp s = Finite 25" "reading i = Finite t" "24 < t" "t < 26" for t
    using q [of 100 t] that by auto
  from gen q c show ?thesis by blast
qed

theorem hysteresis_relay_decision_witness:
  "\<not> setup_mode (button_step True (init_state\<lparr>target_temp := Finite 25, relay_level := True\<rparr>))
   \<and> \<not> isnan (Finite (51 / 2))
   \<and> relay_level (loop \<lparr>sw_level = True, reading = Finite (51 / 2), millis1 = 500, millis2 = 501\<rparr>
                    (init_state\<lparr>target_temp := Finite 25, relay_level := True\<rparr>))
   \<and> \<not> relay_level (loop \<lparr>sw_level = True, reading = Finite (49 / 2), millis1 = 500, millis2 = 501\<rparr>
                    (init_state\<lparr>target_temp := Finite 25\<rparr>))"
  using hysteresis_relay_decision [of "\<lparr>sw_level = True, reading = Finite (51 / 2), millis1 = 500, millis2 = 501\<rparr>"
               "init_state\<lparr>target_temp := Finite 25, relay_level := True\<rparr>"]
        hysteresis_relay_decision [of "\<lparr>sw_level = True, reading = Finite (49 / 2), millis1 = 500, millis2 = 501\<rparr>"
               "init_state\<lparr>target_temp := Finite 25\<rparr>"]
        half_cushion quarter_threshold [of 100]
  by (simp add: init_state_def isnan_def del: fadd.simps)

text \<open>
  Claim C4. In an iteration that is in Run mode when the sensor is read and whose reading
  is NaN, the relay keeps its level, the token \<^verbatim>\<open>"Err "\<close> is the last thing sent to the
  display (the only thing, when the button is not pressed), and the iteration ends there:
  the refresh timestamp is unchanged and the result does not depend on \<^verbatim>\<open>millis()\<close>.
\<close>

theorem nan_reading_aborts_iteration:
  assumes run: "\<not> setup_mode (button_step (sw_level i) s)"
    and nan: "isnan (reading i)"
  shows "relay_level (loop i s) = relay_level s
     \<and> out (loop i s) = out (button_step (sw_level i) s) @ [DispPrint ''Err '']
     \<and> (sw_level i \<longrightarrow> out (loop i s) = out s @ [DispPrint ''Err ''])
     \<and> time_now (loop i s) = time_now s
     \<and> (\<forall>m1 m2. loop (i\<lparr>millis1 := m1, millis2 := m2\<rparr>) s = loop i s)"
proof -
  have "loop (i\<lparr>millis1 := m1, millis2 := m2\<rparr>) s = loop i s" for m1 m2
    using loop_nan [of "i\<lparr>millis1 := m1, millis2 := m2\<rparr>" s] loop_nan [OF run nan] run nan
    by simp
  then show ?thesis
    unfolding loop_nan [OF run nan] by (simp add: button_step_def)
qed

theorem nan_reading_aborts_iteration_witness:
  "\<not> setup_mode (button_step True init_state)
   \<and> isnan NaN
   \<and> 500 - time_now init_state > refresh_freq
   \<and> out (loop \<lparr>sw_level = True, reading = NaN, millis1 = 500, millis2 = 501\<rparr> init_state)
       = [DispPrint ''Err '']
   \<and> time_now (loop \<lparr>sw_level = True, reading = NaN, millis1 = 500, millis2 = 501\<rparr> init_state) = 0
   \<and> \<not> relay_level (loop \<lparr>sw_level = True, reading = NaN, millis1 = 500, millis2 = 501\<rparr> init_state)"
  using nan_reading_aborts_iteration [of "\<lparr>sw_level = True, reading = NaN, millis1 = 500, millis2 = 501\<rparr>" init_state]
  by (simp add: init_state_def isnan_def refresh_freq_def button_step_def)

text \<open>
  Claim C10. An iteration that is in Run mode when the sensor is read and whose reading is
  NaN ends its output with \<^verbatim>\<open>"Err "\<close>, whatever the two values of \<^verbatim>\<open>millis()\<close> are.
  Over any number of consecutive iterations in Run mode with the button released and a NaN
  reading, every iteration sends \<^verbatim>\<open>"Err "\<close> to the display and nothing else: the error
  output is not subject to the refresh interval.
\<close>

theorem nan_error_every_iteration:
  "(\<not> setup_mode (button_step (sw_level i) s) \<and> isnan (reading i) \<longrightarrow>
      (\<forall>m1 m2. out (loop (i\<lparr>millis1 := m1, millis2 := m2\<rparr>) s)
                 = out (button_step (sw_level i) s) @ [DispPrint ''Err '']))
   \<and> (\<not> setup_mode s \<and> (\<forall>j \<in> set js. sw_level j \<and> isnan (reading j)) \<longrightarrow>
      out (run_loops js s) = out s @ replicate (length js) (DispPrint ''Err ''))"
proof -
  have "out (loop (i\<lparr>millis1 := m1, millis2 := m2\<rparr>) s)
                 = out (button_step (sw_level i) s) @ [DispPrint ''Err '']"
    if "\<not> setup_mode (button_step (sw_level i) s)" "isnan (reading i)" for m1 m2
    using loop_nan [of "i\<lparr>millis1 := m1, millis2 := m2\<rparr>" s] that by simp
  then show ?thesis
    using run_loops_nan [of s js] by blast
qed

theorem nan_error_every_iteration_witness:
  "\<not> setup_mode init_state
   \<and> isnan NaN
   \<and> out (loop \<lparr>sw_level = True, reading = NaN, millis1 = 500, millis2 = 501\<rparr> init_state)
       = [DispPrint ''Err '']
   \<and> out (run_loops [\<lparr>sw_level = True, reading = NaN, millis1 = 5, millis2 = 5\<rparr>,
                   \<lparr>sw_level = True, reading = NaN, millis1 = 6, millis2 = 6\<rparr>,
                   \<lparr>sw_level = True, reading = NaN, millis1 = 500, millis2 = 501\<rparr>] init_state)
       = [DispPrint ''Err '', DispPrint ''Err '', DispPrint ''Err '']"
  using nan_error_every_iteration [of "\<lparr>sw_level = True, reading = NaN, millis1 = 500, millis2 = 501\<rparr>" init_state
               "[\<lparr>sw_level = True, reading = NaN, millis1 = 5, millis2 = 5\<rparr>,
                   \<lparr>sw_level = True, reading = NaN, millis1 = 6, millis2 = 6\<rparr>,
                   \<lparr>sw_level = True, reading = NaN, millis1 = 500, millis2 = 501\<rparr>]"]
  by (simp add: init_state_def isnan_def numeral_3_eq_3 button_step_def)

text \<open>
  Claim C6. The mode after an iteration is the opposite of the mode before it when the
  button pin reads low (pressed), and the same mode otherwise. In a pressed iteration the
  trace continues with the display refresh of the new mode (a decimal-mask command and the
  payload), then the delay of 1000 ms, then the rest of the iteration, which contains no
  further delay; the button is read once per iteration, before the delay.
\<close>

theorem button_press_toggles_mode:
  "setup_mode (loop i s) = (if sw_level i then setup_mode s else \<not> setup_mode s)
   \<and> (\<not> sw_level i \<longrightarrow>
        (\<exists>rest. out (loop i s)
            = out (updateDisplay (s\<lparr>setup_mode := \<not> setup_mode s\<rparr>)) @ Delay 1000 # rest
          \<and> Delay 1000 \<notin> set rest)
        \<and> (\<exists>d p. out (updateDisplay (s\<lparr>setup_mode := \<not> setup_mode s\<rparr>))
            = out s @ [DispWrite 0x77, DispWrite d, DispPrint p]))"
proof -
  have disp: "\<exists>d p. out (updateDisplay t) = out t @ [DispWrite 0x77, DispWrite d, DispPrint p]" for t
    by (simp add: updateDisplay_def)
  have bs: "out (button_step False s)
      = out (updateDisplay (s\<lparr>setup_mode := \<not> setup_mode s\<rparr>)) @ [Delay 1000]"
    by (simp add: button_step_def)
  have rf: "\<exists>rest. out (refresh_step m1 m2 t) = out t @ rest \<and> Delay 1000 \<notin> set rest" for m1 m2 t
    by (simp add: refresh_step_def updateDisplay_def)
  have tail: "\<exists>rest. out (loop i s) = out (button_step (sw_level i) s) @ rest \<and> Delay 1000 \<notin> set rest"
  proof -
    consider (a) "setup_mode (button_step (sw_level i) s)"
      | (b) "\<not> setup_mode (button_step (sw_level i) s)" "isnan (reading i)"
      | (c) "\<not> setup_mode (button_step (sw_level i) s)" "\<not> isnan (reading i)"
      by blast
    then show ?thesis
    proof cases
      case a
      then show ?thesis using rf unfolding loop_setup [OF a] by blast
    next
      case b
      then show ?thesis unfolding loop_nan [OF b] by simp
    next
      case c
      obtain rest where "out (loop i s) =
          out (switchRelay
          (fle (reading i)
             (if relay_level s then fadd (target_temp s) (fdiv cushion_temp (Finite 2))
              else fsub (target_temp s) (fdiv cushion_temp (Finite 2))))
          ((button_step (sw_level i) s)\<lparr>current_temp := reading i\<rparr>)) @ rest" "Delay 1000 \<notin> set rest"
        unfolding loop_valid [OF c] using rf by blast
      then show ?thesis by simp
    qed
  qed
  have "\<exists>rest. out (loop i s)
            = out (updateDisplay (s\<lparr>setup_mode := \<not> setup_mode s\<rparr>)) @ Delay 1000 # rest
          \<and> Delay 1000 \<notin> set rest" if "\<not> sw_level i"
    using tail that bs by auto
  with disp [of "s\<lparr>setup_mode := \<not> setup_mode s\<rparr>"] show ?thesis
    by (simp add: loop_frame)
qed

theorem button_press_toggles_mode_witness:
  "\<not> sw_level \<lparr>sw_level = False, reading = Finite 20, millis1 = 1500, millis2 = 1501\<rparr>
   \<and> setup_mode (loop \<lparr>sw_level = False, reading = Finite 20, millis1 = 1500, millis2 = 1501\<rparr> init_state)
   \<and> (\<exists>rest. out (loop \<lparr>sw_level = False, reading = Finite 20, millis1 = 1500, millis2 = 1501\<rparr> init_state)
         = out (updateDisplay (init_state\<lparr>setup_mode := True\<rparr>)) @ Delay 1000 # rest
       \<and> Delay 1000 \<notin> set rest)"
  using button_press_toggles_mode [of "\<lparr>sw_level = False, reading = Finite 20, millis1 = 1500, millis2 = 1501\<rparr>" init_state]
  by (simp add: init_state_def)

subsection \<open>Display and start-up\<close>

text \<open>
  Claim C7. In Run mode with the current temperature 23.456 (the binary32 value nearest to
  it) the display receives the decimal mask 000010 and the payload \<^verbatim>\<open>"2345"\<close>; in Setup
  mode with target temperature 24.0 it receives the mask 010000 and the payload
  \<^verbatim>\<open>"T 24"\<close>.
\<close>

theorem display_formatting:
  "(\<not> setup_mode s \<and> current_temp s = round32 (23456 / 1000) \<longrightarrow>
      out (updateDisplay s) = out s @ [DispWrite 0x77, DispWrite 0b000010, DispPrint ''2345''])
   \<and> (setup_mode s \<and> target_temp s = Finite 24 \<longrightarrow>
      out (updateDisplay s) = out s @ [DispWrite 0x77, DispWrite 0b010000, DispPrint ''T 24''])"
proof -
  have a: "fmt_d 4 (float_to_int (fmul (round32 (23456 / 1000)) (Finite 100))) = ''2345''"
    unfolding round_23_456 fmul.simps round_2345_6 float_to_int_2345 fmt_2345 ..
  have b: "''T '' @ fmt_d 2 (float_to_int (Finite 24)) = ''T 24''"
    unfolding float_to_int_24 fmt_24 by simp
  show ?thesis
    using a b by (simp add: updateDisplay_def)
qed

theorem display_formatting_witness:
  "\<not> setup_mode (init_state\<lparr>current_temp := round32 (23456 / 1000)\<rparr>)
   \<and> out (updateDisplay (init_state\<lparr>current_temp := round32 (23456 / 1000)\<rparr>))
       = [DispWrite 0x77, DispWrite 2, DispPrint ''2345'']
   \<and> setup_mode (init_state\<lparr>setup_mode := True, target_temp := Finite 24\<rparr>)
   \<and> out (updateDisplay (init_state\<lparr>setup_mode := True, target_temp := Finite 24\<rparr>))
       = [DispWrite 0x77, DispWrite 16, DispPrint ''T 24'']"
  using display_formatting [of "init_state\<lparr>current_temp := round32 (23456 / 1000)\<rparr>"]
        display_formatting [of "init_state\<lparr>setup_mode := True, target_temp := Finite 24\<rparr>"]
  by (simp add: init_state_def)

text \<open>
  Claim C9. After \<^verbatim>\<open>setup()\<close> on the initial globals the mode is Run, the relay pin is
  low, the counter is 100 and the target is 25.0; the whole trace of the initialisation is
  fixed. Whatever the relay level was, \<^verbatim>\<open>setup()\<close> leaves it low, and it changes neither
  the mode nor the counter.
\<close>

theorem startup_state:
  "setup_mode (setup_fn init_state) = False
   \<and> relay_level (setup_fn init_state) = False
   \<and> enco_value (setup_fn init_state) = 100
   \<and> target_temp (setup_fn init_state) = Finite 25
   \<and> out (setup_fn init_state) =
       [DispBegin 9600, DispWrite 0x76, DispWrite 0x7A, DispWrite 255, DhtBegin,
        PinMode 2 INPUT, PinMode 3 INPUT, PinMode 7 INPUT,
        DigitalWrite 2 True, DigitalWrite 3 True, DigitalWrite 7 True,
        AttachInterrupt 0, AttachInterrupt 1,
        PinMode 6 OUTPUT, DigitalWrite 6 False,
        DispWrite 0x77, DispWrite 16, DispPrint ''T 25'', Delay 3000]
   \<and> relay_level (setup_fn s) = False
   \<and> setup_mode (setup_fn s) = setup_mode s
   \<and> enco_value (setup_fn s) = enco_value s"
proof -
  have h: "fmul (float_of_long 100) enco_sensitivity = Finite 25"
    using derive_target_exact [of 100] by simp
  show ?thesis
    by (simp add: setup_fn_def Let_def clearDisplay_def setBrightness_def init_state_def h
        float_to_int_25 fmt_T25 baud_rate_def disp_brightness_def pin_enco_1_def pin_enco_2_def
        pin_enco_sw_def pin_relay_def)
qed

end
